theory Spec2Isabelle
  imports Main "HOL-Library.Sublist"
begin

section \<open>Strings and paths\<close>

text \<open>
  A Python \<open>str\<close> is held as a \<open>string\<close>; a character outside ASCII is held as the
  bytes of its UTF-8 encoding, so that the text of a file opened with
  \<open>encoding="utf-8"\<close> is the string itself. The path functions are those of
  \<open>posixpath\<close>: the separator is \<open>/\<close>, the extension separator is \<open>.\<close>.
\<close>

text \<open>\<open>str.rfind\<close> for a one-character pattern: the highest index, or \<open>-1\<close>.\<close>

fun rfind_from :: "char \<Rightarrow> string \<Rightarrow> nat \<Rightarrow> int \<Rightarrow> int" where
  "rfind_from c [] i found = found"
| "rfind_from c (x # xs) i found = rfind_from c xs (Suc i) (if x = c then int i else found)"

definition rfind :: "char \<Rightarrow> string \<Rightarrow> int" where
  "rfind c p = rfind_from c p 0 (- 1)"

text \<open>
  \<open>posixpath.basename\<close>:
  \<^verbatim>\<open>i = p.rfind(sep) + 1; return p[i:]\<close>
\<close>

definition basename :: "string \<Rightarrow> string" where
  "basename p = (let i = rfind (CHR ''/'') p + 1 in drop (nat i) p)"

text \<open>
  The loop of \<open>genericpath._splitext\<close> that skips the leading dots of the file name:
  \<^verbatim>\<open>
  while filenameIndex < dotIndex:
      if p[filenameIndex:filenameIndex+1] != extsep:
          return p[:dotIndex], p[dotIndex:]
      filenameIndex += 1
  \<close>
  It answers whether the loop returns from inside (a character other than the dot stands
  before the last dot).
\<close>

function skip_dots :: "string \<Rightarrow> nat \<Rightarrow> nat \<Rightarrow> bool" where
  "skip_dots p filenameIndex dotIndex =
     (if filenameIndex < dotIndex
      then (if take 1 (drop filenameIndex p) \<noteq> ''.'' then True
            else skip_dots p (Suc filenameIndex) dotIndex)
      else False)"
  by pat_completeness auto
termination
  by (relation "measure (\<lambda>(p, i, d). d - i)") auto

declare skip_dots.simps [simp del]

text \<open>
  \<open>posixpath.splitext\<close>, that is \<open>genericpath._splitext(p, '/', None, '.')\<close>:
  \<^verbatim>\<open>
  sepIndex = p.rfind(sep)
  dotIndex = p.rfind(extsep)
  if dotIndex > sepIndex:
      filenameIndex = sepIndex + 1
      while ...
  return p, p[:0]
  \<close>
\<close>

definition splitext :: "string \<Rightarrow> string \<times> string" where
  "splitext p =
     (let sepIndex = rfind (CHR ''/'') p;
          dotIndex = rfind (CHR ''.'') p
      in if dotIndex > sepIndex \<and> skip_dots p (nat (sepIndex + 1)) (nat dotIndex)
         then (take (nat dotIndex) p, drop (nat dotIndex) p)
         else (p, []))"

section \<open>The worker: \<open>WhisperWorker\<close>\<close>

text \<open>
  An exception is an instance of \<open>Exception\<close>, held by its message \<open>str(e)\<close>, which is
  all that the handler of \<open>run\<close> reads.
\<close>

datatype exn = Exn string

fun str_exn :: "exn \<Rightarrow> string" where
  "str_exn (Exn msg) = msg"

text \<open>
  The model returned by \<open>whisper.load_model\<close>: its \<open>device\<close> (as printed) and its
  \<open>transcribe\<close> method, which raises or returns the result dictionary.
\<close>

record whisper_model =
  device :: string
  transcribe :: "string \<Rightarrow> exn + (string \<rightharpoonup> string)"

text \<open>
  What the worker calls outside this repository:
  \<^item> \<open>load_model\<close>: \<open>whisper.load_model(name)\<close>, which raises or returns a model;
  \<^item> \<open>elapsed_text\<close>: the text of \<open>f"{end_time - start_time:.2f}"\<close> for the two
    readings of \<open>time.time()\<close>;
  \<^item> \<open>open_error\<close>: the exception of \<open>open(name, "w", encoding="utf-8")\<close>, if it raises;
  \<^item> \<open>write_error\<close>: for \<open>f.write(text)\<close> and the closing of the file, the exception
    raised, if any, with the text that reached the file before it.
\<close>

record env =
  load_model :: "string \<Rightarrow> exn + whisper_model"
  elapsed_text :: string
  open_error :: "string \<Rightarrow> exn option"
  write_error :: "string \<Rightarrow> string \<Rightarrow> (string \<times> exn) option"

text \<open>
  The files of the current working directory and below, by path, with the text each holds.
  \<open>os.path.exists\<close> is membership.
\<close>

type_synonym files = "string \<rightharpoonup> string"

definition path_exists :: "files \<Rightarrow> string \<Rightarrow> bool" where
  "path_exists fs p = (fs p \<noteq> None)"

text \<open>The four signals of the worker, each carrying a \<open>str\<close>.\<close>

datatype notification =
    Started string
  | Progress string
  | Complete string
  | Error string

fun is_terminal :: "notification \<Rightarrow> bool" where
  "is_terminal (Complete _) = True"
| "is_terminal (Error _) = True"
| "is_terminal _ = False"

text \<open>Lines 66 and 67 of \<open>run\<close>.\<close>

definition base_name :: "string \<Rightarrow> string" where
  "base_name audio_path = fst (splitext (basename audio_path))"

definition output_filename :: "string \<Rightarrow> string \<Rightarrow> string" where
  "output_filename audio_path model_name =
     base_name audio_path @ ''_'' @ model_name @ ''_transcript.txt''"

text \<open>
  \<^verbatim>\<open>
  with open(output_filename, "w", encoding="utf-8") as f:
      f.write(full_transcript)
  \<close>
  Opening for writing creates the file or truncates it; a failure of the write leaves
  what had reached the file. The text is written as it is: with \<open>posixpath\<close> goes the
  line feed as line separator, which text mode does not translate.
\<close>

definition write_transcript :: "env \<Rightarrow> files \<Rightarrow> string \<Rightarrow> string \<Rightarrow> (exn + unit) \<times> files" where
  "write_transcript e fs name text =
     (case open_error e name of
        Some ex \<Rightarrow> (Inl ex, fs)
      | None \<Rightarrow>
          (case write_error e name text of
             Some (written, ex) \<Rightarrow> (Inl ex, fs(name \<mapsto> written))
           | None \<Rightarrow> (Inr (), fs(name \<mapsto> text))))"

definition error_message :: "exn \<Rightarrow> string" where
  "error_message ex =
     ''An unexpected error occurred: '' @ str_exn ex
       @ ''. Check FFmpeg installation and file permissions.''"

definition summary_text :: "string \<Rightarrow> string \<Rightarrow> string \<Rightarrow> string" where
  "summary_text elapsed name full_transcript =
     ''Transcription complete in '' @ elapsed @ '' seconds.'' @ [CHR 0x0A]
       @ ''Result saved to: '' @ name @ [CHR 0x0A, CHR 0x0A]
       @ ''Full Transcript:'' @ [CHR 0x0A] @ full_transcript"

text \<open>The texts of lines 38, 42 and 50; \<open>0x27\<close> is the apostrophe.\<close>

definition not_found_text :: "string \<Rightarrow> string" where
  "not_found_text audio_path =
     ''Audio file not found at '' @ [CHR 0x27] @ audio_path @ [CHR 0x27] @ ''.''"

definition loading_text :: "string \<Rightarrow> string" where
  "loading_text model_name = ''Loading Whisper model: '' @ model_name @ ''...''"

definition loaded_text :: "string \<Rightarrow> string" where
  "loaded_text dev =
     ''Model loaded successfully. Running on device: '' @ dev @ ''. Starting transcription...''"

text \<open>\<open>result["text"]\<close>: a dictionary without the key raises \<open>KeyError('text')\<close>.\<close>

definition result_text :: "(string \<rightharpoonup> string) \<Rightarrow> exn + string" where
  "result_text result =
     (case result ''text'' of
        None \<Rightarrow> Inl (Exn ([CHR 0x27] @ ''text'' @ [CHR 0x27]))
      | Some full_transcript \<Rightarrow> Inr full_transcript)"

text \<open>
  \<open>WhisperWorker.run\<close>: the notifications emitted, in order, and the files afterwards.
  Every \<open>Inl\<close> below is an exception caught by \<open>except Exception as e\<close>.
\<close>

definition run :: "env \<Rightarrow> files \<Rightarrow> string \<Rightarrow> string \<Rightarrow> notification list \<times> files" where
  "run e fs audio_path model_name =
     (if \<not> path_exists fs audio_path
      then ([Error (not_found_text audio_path)], fs)
      else
        let started = Started (loading_text model_name) in
        case load_model e model_name of
          Inl ex \<Rightarrow> ([started, Error (error_message ex)], fs)
        | Inr model \<Rightarrow>
            let progress = Progress (loaded_text (device model)) in
            (case transcribe model audio_path of
               Inl ex \<Rightarrow> ([started, progress, Error (error_message ex)], fs)
             | Inr result \<Rightarrow>
                 (case result_text result of
                    Inl ex \<Rightarrow> ([started, progress, Error (error_message ex)], fs)
                  | Inr full_transcript \<Rightarrow>
                      let name = output_filename audio_path model_name in
                      (case write_transcript e fs name full_transcript of
                         (Inl ex, fs') \<Rightarrow> ([started, progress, Error (error_message ex)], fs')
                       | (Inr _, fs') \<Rightarrow>
                           ([started, progress,
                             Complete (summary_text (elapsed_text e) name full_transcript)],
                            fs')))))"

section \<open>The shell: \<open>TranscriberApp\<close>\<close>

text \<open>The message boxes shown, by title and text; each blocks until it is dismissed.\<close>

datatype dialog =
    Warning string string
  | Critical string string

text \<open>
  The window: the widgets that the methods read or write, and \<open>self.worker\<close>, which holds
  the worker's \<open>audio_path\<close> and \<open>model_name\<close>. \<open>dialogs\<close> is the list of message boxes
  shown so far. The combo box is held as its items and its current index (\<open>-1\<close>: none).
\<close>

record app =
  path_text :: string
  path_enabled :: bool
  browse_enabled :: bool
  model_items :: "string list"
  model_index :: int
  model_enabled :: bool
  transcribe_enabled :: bool
  transcribe_text :: string
  progress_visible :: bool
  progress_range :: "int \<times> int"
  progress_value :: int
  status_text :: string
  output_text :: string
  worker :: "(string \<times> string) option"
  dialogs :: "dialog list"

text \<open>\<open>QComboBox.currentText\<close>: the text of the current item, or the empty string.\<close>

definition currentText :: "app \<Rightarrow> string" where
  "currentText a =
     (if 0 \<le> model_index a \<and> model_index a < int (length (model_items a))
      then model_items a ! nat (model_index a) else [])"

text \<open>
  \<open>QComboBox.addItems\<close> appends; a combo box that was empty makes its first item current.
\<close>

definition addItems :: "string list \<Rightarrow> app \<Rightarrow> app" where
  "addItems texts a =
     a\<lparr>model_items := model_items a @ texts,
       model_index := (if model_items a = [] \<and> texts \<noteq> [] then 0 else model_index a)\<rparr>"

text \<open>\<open>QComboBox.findText\<close> with the default exact match: the first index, or \<open>-1\<close>.\<close>

fun findText :: "string list \<Rightarrow> string \<Rightarrow> int" where
  "findText [] t = - 1"
| "findText (x # xs) t =
     (if x = t then 0 else (let i = findText xs t in if i < 0 then - 1 else i + 1))"

text \<open>
  \<open>QComboBox.setCurrentText\<close> on a combo box that is not editable: the item with that text
  becomes current, if there is one.
\<close>

definition setCurrentText :: "string \<Rightarrow> app \<Rightarrow> app" where
  "setCurrentText t a =
     (let i = findText (model_items a) t in if i < 0 then a else a\<lparr>model_index := i\<rparr>)"

text \<open>\<open>TranscriberApp.update_ui_state\<close>.\<close>

definition update_ui_state :: "bool \<Rightarrow> app \<Rightarrow> app" where
  "update_ui_state is_ready a =
     (let a1 = a\<lparr>browse_enabled := is_ready, path_enabled := is_ready,
                  model_enabled := is_ready, transcribe_enabled := is_ready\<rparr>
      in if is_ready
         then a1\<lparr>transcribe_text := ''Start Transcription'', progress_visible := False\<rparr>
         else a1\<lparr>transcribe_text := ''Processing...'', progress_range := (0, 0),
                 progress_visible := True\<rparr>)"

text \<open>
  The widgets as their constructors leave them, before \<open>init_ui\<close> configures them:
  enabled, empty, the progress bar over 0..100 with no value.
\<close>

definition fresh_widgets :: app where
  "fresh_widgets =
     \<lparr>path_text = [], path_enabled = True, browse_enabled = True,
      model_items = [], model_index = - 1, model_enabled = True,
      transcribe_enabled = True, transcribe_text = ''Start Transcription'',
      progress_visible = True, progress_range = (0, 100), progress_value = - 1,
      status_text = ''Ready to transcribe.'', output_text = [],
      worker = None, dialogs = []\<rparr>"

text \<open>
  The text of line 210; the warning sign U+26A0 U+FE0F is the six bytes of its UTF-8
  encoding.
\<close>

definition prerequisite_text :: string where
  "prerequisite_text =
     [CHR 0xE2, CHR 0x9A, CHR 0xA0, CHR 0xEF, CHR 0xB8, CHR 0x8F]
       @ '' **Prerequisite:** Ensure FFmpeg is installed and accessible on your system for Whisper to process audio files correctly.''"

text \<open>
  \<open>TranscriberApp.__init__\<close> with \<open>init_ui\<close>, in the order of the source: the combo box
  (lines 158 to 161), the progress bar (lines 181 to 183), the state of the controls
  (line 208) and the text of the output log (line 209).
\<close>

definition init_ui :: app where
  "init_ui =
     (let a1 = setCurrentText ''medium'' (addItems [''base'', ''small'', ''medium'', ''large-v2''] fresh_widgets);
          a2 = a1\<lparr>progress_value := 0, progress_visible := False\<rparr>;
          a3 = update_ui_state True a2
      in a3\<lparr>output_text := prerequisite_text\<rparr>)"

text \<open>
  \<open>TranscriberApp.select_audio_file\<close>; \<open>filepath\<close> is what the file dialog returns, the
  empty string when it is cancelled.
\<close>

definition select_audio_file :: "string \<Rightarrow> app \<Rightarrow> app" where
  "select_audio_file filepath a = (if filepath \<noteq> [] then a\<lparr>path_text := filepath\<rparr> else a)"

definition input_error :: dialog where
  "input_error =
     Warning ''Input Error'' ''Please select a valid audio file before starting transcription.''"

text \<open>
  \<open>TranscriberApp.start_transcription\<close>: the window afterwards, and the worker thread
  started by \<open>self.worker.start()\<close>, if any, by its \<open>audio_path\<close> and \<open>model_name\<close>.
\<close>

definition start_transcription :: "files \<Rightarrow> app \<Rightarrow> app \<times> (string \<times> string) option" where
  "start_transcription fs a =
     (let audio_path = path_text a;
          model_name = currentText a
      in if audio_path = [] \<or> \<not> path_exists fs audio_path
         then (a\<lparr>dialogs := dialogs a @ [input_error]\<rparr>, None)
         else
           (let a1 = update_ui_state False a;
                a2 = a1\<lparr>output_text := []\<rparr>;
                a3 = a2\<lparr>status_text := ''Starting process...''\<rparr>;
                a4 = a3\<lparr>worker := Some (audio_path, model_name)\<rparr>
            in (a4, Some (audio_path, model_name))))"

text \<open>The four slots.\<close>

definition handle_started :: "string \<Rightarrow> app \<Rightarrow> app" where
  "handle_started message a = a\<lparr>status_text := message\<rparr>"

definition handle_progress :: "string \<Rightarrow> app \<Rightarrow> app" where
  "handle_progress message a = a\<lparr>status_text := message\<rparr>"

text \<open>The check mark U+2705 of line 280 is the three bytes of its UTF-8 encoding.\<close>

definition finished_text :: string where
  "finished_text =
     [CHR 0xE2, CHR 0x9C, CHR 0x85] @ '' Transcription Finished! Output saved to disk.''"

definition handle_complete :: "string \<Rightarrow> app \<Rightarrow> app" where
  "handle_complete summary a =
     (let a1 = a\<lparr>output_text := summary\<rparr>;
          a2 = a1\<lparr>status_text := finished_text\<rparr>;
          a3 = update_ui_state True a2
      in a3\<lparr>worker := None\<rparr>)"

definition handle_error :: "string \<Rightarrow> app \<Rightarrow> app" where
  "handle_error message a =
     (let a1 = a\<lparr>status_text := ''ERROR: '' @ message\<rparr>;
          a2 = a1\<lparr>dialogs := dialogs a1 @ [Critical ''Transcription Error'' message]\<rparr>;
          a3 = update_ui_state True a2
      in a3\<lparr>worker := None\<rparr>)"

text \<open>The connections of lines 258 to 261: each signal runs its slot.\<close>

fun handle :: "notification \<Rightarrow> app \<Rightarrow> app" where
  "handle (Started message) a = handle_started message a"
| "handle (Progress message) a = handle_progress message a"
| "handle (Complete summary) a = handle_complete summary a"
| "handle (Error message) a = handle_error message a"

section \<open>The shell and its worker threads together\<close>

text \<open>
  The window, and for every worker thread started and not yet finished the notifications
  it has still to deliver, in order. A thread leaves the list when its last notification
  has been handled.
\<close>

record sys =
  ui :: app
  threads :: "notification list list"

definition init_sys :: sys where
  "init_sys = \<lparr>ui = init_ui, threads = []\<rparr>"

text \<open>
  What can happen to the window. Qt delivers a click, or a choice in the combo box, only
  from a widget that is enabled.
  \<^item> \<open>Click_transcribe fs fs' e\<close>: a click on the button connected to
    \<open>start_transcription\<close> (line 177); \<open>fs\<close> are the files when the slot runs, \<open>fs'\<close> and
    \<open>e\<close> the files and the environment that the worker meets.
  \<^item> \<open>Click_browse filepath\<close>: a click on the button connected to \<open>select_audio_file\<close>
    (line 151), with the answer of the file dialog.
  \<^item> \<open>Select_model i\<close>: the user picks item \<open>i\<close> of the combo box.
  \<^item> \<open>Deliver k\<close>: the event loop runs the slot for the next notification of thread \<open>k\<close>.
\<close>

datatype event =
    Click_transcribe files files env
  | Click_browse string
  | Select_model nat
  | Deliver nat

definition spawn :: "env \<Rightarrow> files \<Rightarrow> (string \<times> string) option \<Rightarrow> notification list list" where
  "spawn e fs job =
     (case job of None \<Rightarrow> [] | Some (audio_path, model_name) \<Rightarrow> [fst (run e fs audio_path model_name)])"

definition deliver :: "nat \<Rightarrow> sys \<Rightarrow> sys" where
  "deliver k s =
     (if k < length (threads s)
      then (case threads s ! k of
              [] \<Rightarrow> s\<lparr>threads := take k (threads s) @ drop (Suc k) (threads s)\<rparr>
            | n # rest \<Rightarrow>
                s\<lparr>ui := handle n (ui s),
                  threads := take k (threads s) @ (if rest = [] then [] else [rest])
                               @ drop (Suc k) (threads s)\<rparr>)
      else s)"

fun step :: "event \<Rightarrow> sys \<Rightarrow> sys" where
  "step (Click_transcribe fs fs' e) s =
     (if transcribe_enabled (ui s)
      then (let (a, job) = start_transcription fs (ui s)
            in s\<lparr>ui := a, threads := threads s @ spawn e fs' job\<rparr>)
      else s)"
| "step (Click_browse filepath) s =
     (if browse_enabled (ui s) then s\<lparr>ui := select_audio_file filepath (ui s)\<rparr> else s)"
| "step (Select_model i) s =
     (if model_enabled (ui s) \<and> i < length (model_items (ui s))
      then s\<lparr>ui := (ui s)\<lparr>model_index := int i\<rparr>\<rparr> else s)"
| "step (Deliver k) s = deliver k s"

text \<open>The events are handled one after the other, from the left.\<close>

fun exec :: "event list \<Rightarrow> sys \<Rightarrow> sys" where
  "exec [] s = s"
| "exec (ev # evs) s = exec evs (step ev s)"

section \<open>Invariants of the shell\<close>

text \<open>The four input controls are all enabled (\<open>b\<close>) or all disabled (\<open>\<not> b\<close>).\<close>

definition controls :: "bool \<Rightarrow> app \<Rightarrow> bool" where
  "controls b a =
     (browse_enabled a = b \<and> path_enabled a = b \<and> model_enabled a = b
      \<and> transcribe_enabled a = b)"

text \<open>
  What a running worker has still to deliver: some notifications that are not terminal,
  then one that is.
\<close>

fun pending :: "notification list \<Rightarrow> bool" where
  "pending [] = False"
| "pending [n] = is_terminal n"
| "pending (n # ns) = (\<not> is_terminal n \<and> pending ns)"

text \<open>
  Either no worker runs, the controls are enabled and \<open>self.worker\<close> is \<open>None\<close>; or one
  worker runs, the controls are disabled and \<open>self.worker\<close> is set.
\<close>

definition busy_inv :: "sys \<Rightarrow> bool" where
  "busy_inv s =
     (case threads s of
        [] \<Rightarrow> controls True (ui s) \<and> worker (ui s) = None
      | [q] \<Rightarrow> controls False (ui s) \<and> worker (ui s) \<noteq> None \<and> pending q
      | _ \<Rightarrow> False)"

text \<open>
  The combo box holds the four items of line 160, one of them is current, and the model
  name of \<open>self.worker\<close> is one of them.
\<close>

definition model_inv :: "app \<Rightarrow> bool" where
  "model_inv a =
     (model_items a = [''base'', ''small'', ''medium'', ''large-v2'']
      \<and> 0 \<le> model_index a \<and> model_index a < 4
      \<and> (case worker a of
            None \<Rightarrow> True
          | Some (audio_path, model_name) \<Rightarrow>
              model_name \<in> {''base'', ''small'', ''medium'', ''large-v2''}))"

section \<open>Concrete files and environments\<close>

text \<open>One audio file in the working directory, and an engine that answers.\<close>

definition fs_sample :: files where
  "fs_sample = [''sample.wav'' \<mapsto> ''RIFF'']"

definition result_hello :: "string \<rightharpoonup> string" where
  "result_hello = [''text'' \<mapsto> '' Hello world.'']"

definition model_ok :: whisper_model where
  "model_ok = \<lparr>device = ''cpu'', transcribe = (\<lambda>_. Inr result_hello)\<rparr>"

definition env_ok :: env where
  "env_ok =
     \<lparr>load_model = (\<lambda>_. Inr model_ok), elapsed_text = ''1.50'',
      open_error = (\<lambda>_. None), write_error = (\<lambda>_ _. None)\<rparr>"

text \<open>The working directory cannot be written to.\<close>

definition env_readonly :: env where
  "env_readonly = env_ok\<lparr>open_error := (\<lambda>_. Some (Exn ''[Errno 13] Permission denied''))\<rparr>"

text \<open>The model cannot be loaded.\<close>

definition env_load_fails :: env where
  "env_load_fails = env_ok\<lparr>load_model := (\<lambda>_. Inl (Exn ''download failed''))\<rparr>"

text \<open>Inference raises an exception whose message is \<open>disk full\<close>.\<close>

definition model_disk_full :: whisper_model where
  "model_disk_full = \<lparr>device = ''cpu'', transcribe = (\<lambda>_. Inl (Exn ''disk full''))\<rparr>"

definition env_disk_full :: env where
  "env_disk_full = env_ok\<lparr>load_model := (\<lambda>_. Inr model_disk_full)\<rparr>"

text \<open>A worker has been started, from a path that exists, and nothing is delivered yet.\<close>

definition evs_started :: "event list" where
  "evs_started = [Click_browse ''sample.wav'', Click_transcribe fs_sample fs_sample env_ok]"

section \<open>Facts about the path functions\<close>

lemma rfind_from_append:
  "rfind_from c (xs @ ys) i found = rfind_from c ys (i + length xs) (rfind_from c xs i found)"
  by (induction xs arbitrary: i found) auto

lemma rfind_from_notin: "c \<notin> set xs \<Longrightarrow> rfind_from c xs i found = found"
  by (induction xs arbitrary: i found) auto

lemma rfind_notin: "c \<notin> set p \<Longrightarrow> rfind c p = - 1"
  by (simp add: rfind_def rfind_from_notin)

lemma rfind_last: "c \<notin> set ys \<Longrightarrow> rfind c (xs @ c # ys) = int (length xs)"
  by (simp add: rfind_def rfind_from_append rfind_from_notin)

text \<open>\<open>rfind\<close> answers \<open>-1\<close> exactly when the character is absent, else its last position.\<close>

lemma rfind_from_range:
  "rfind_from c xs i found = found \<and> c \<notin> set xs \<or>
   (\<exists>k < length xs. rfind_from c xs i found = int (i + k) \<and> xs ! k = c
      \<and> c \<notin> set (drop (Suc k) xs))"
proof (induction xs arbitrary: i found rule: rev_induct)
  case Nil
  then show ?case by simp
next
  case (snoc x xs)
  show ?case
  proof (cases "x = c")
    case True
    then show ?thesis
      by (auto simp: rfind_from_append nth_append intro!: exI[of _ "length xs"])
  next
    case False
    from snoc[of i found] show ?thesis
    proof
      assume "rfind_from c xs i found = found \<and> c \<notin> set xs"
      with False show ?thesis by (simp add: rfind_from_append)
    next
      assume "\<exists>k<length xs. rfind_from c xs i found = int (i + k) \<and> xs ! k = c
                \<and> c \<notin> set (drop (Suc k) xs)"
      then obtain k where "k < length xs" "rfind_from c xs i found = int (i + k)"
          "xs ! k = c" "c \<notin> set (drop (Suc k) xs)"
        by blast
      with False have "k < length (xs @ [x]) \<and> rfind_from c (xs @ [x]) i found = int (i + k)
          \<and> (xs @ [x]) ! k = c \<and> c \<notin> set (drop (Suc k) (xs @ [x]))"
        by (auto simp: rfind_from_append nth_append)
      then show ?thesis by blast
    qed
  qed
qed

lemma rfind_cases:
  "rfind c p = - 1 \<and> c \<notin> set p \<or>
   (\<exists>k < length p. rfind c p = int k \<and> p ! k = c \<and> c \<notin> set (drop (Suc k) p))"
  using rfind_from_range[of c p 0 "- 1"] by (simp add: rfind_def)

lemma basename_no_sep: "CHR ''/'' \<notin> set (basename p)"
  using rfind_cases[of "CHR ''/''" p] by (auto simp: basename_def Let_def nat_add_distrib)

lemma basename_join: "CHR ''/'' \<notin> set f \<Longrightarrow> basename (d @ ''/'' @ f) = f"
  using rfind_last[of "CHR ''/''" f d] by (simp add: basename_def Let_def nat_add_distrib)

lemma basename_plain: "CHR ''/'' \<notin> set f \<Longrightarrow> basename f = f"
  by (simp add: basename_def rfind_notin)

lemma skip_dots_iff:
  "skip_dots p i d \<longleftrightarrow> (\<exists>j. i \<le> j \<and> j < d \<and> take 1 (drop j p) \<noteq> ''.'')"
proof (induction p i d rule: skip_dots.induct)
  case (1 p i d)
  show ?case
  proof (cases "i < d")
    case False
    then show ?thesis by (subst skip_dots.simps) auto
  next
    case True
    show ?thesis
    proof (cases "take 1 (drop i p) \<noteq> ''.''")
      case True
      with \<open>i < d\<close> show ?thesis by (subst skip_dots.simps) auto
    next
      case False
      then have eq: "take 1 (drop i p) = ''.''" by simp
      have "skip_dots p i d = skip_dots p (Suc i) d"
        using \<open>i < d\<close> eq by (subst skip_dots.simps) simp
      also have "\<dots> \<longleftrightarrow> (\<exists>j. Suc i \<le> j \<and> j < d \<and> take 1 (drop j p) \<noteq> ''.'')"
        using "1.IH"[OF \<open>i < d\<close>] eq by simp
      also have "\<dots> \<longleftrightarrow> (\<exists>j. i \<le> j \<and> j < d \<and> take 1 (drop j p) \<noteq> ''.'')"
        using eq by (metis Suc_leD Suc_leI le_neq_implies_less)
      finally show ?thesis .
    qed
  qed
qed

lemma splitext_name_ext:
  assumes n: "CHR ''/'' \<notin> set n" and x: "CHR ''.'' \<notin> set x" "CHR ''/'' \<notin> set x"
    and c: "\<exists>c \<in> set n. c \<noteq> CHR ''.''"
  shows "splitext (n @ ''.'' @ x) = (n, ''.'' @ x)"
proof -
  have sep: "rfind (CHR ''/'') (n @ ''.'' @ x) = - 1"
    using n x by (simp add: rfind_notin)
  have dot: "rfind (CHR ''.'') (n @ ''.'' @ x) = int (length n)"
    using rfind_last[of "CHR ''.''" x n] x by simp
  from c obtain j where j: "j < length n" "n ! j \<noteq> CHR ''.''"
    by (metis in_set_conv_nth)
  then have "take 1 (drop j (n @ ''.'' @ x)) = [n ! j]"
    by (simp add: take_Suc_conv_app_nth[of 0] hd_drop_conv_nth take_Suc)
  with j have "skip_dots (n @ ''.'' @ x) 0 (length n)"
    by (auto simp: skip_dots_iff)
  with sep dot show ?thesis by (simp add: splitext_def)
qed

lemma base_name_shape:
  assumes "CHR ''/'' \<notin> set n" "CHR ''.'' \<notin> set x" "CHR ''/'' \<notin> set x"
    "\<exists>c \<in> set n. c \<noteq> CHR ''.''"
  shows "base_name (d @ ''/'' @ n @ ''.'' @ x) = n" and "base_name (n @ ''.'' @ x) = n"
proof -
  have "CHR ''/'' \<notin> set (n @ ''.'' @ x)" using assms by simp
  then have "basename (d @ ''/'' @ (n @ ''.'' @ x)) = n @ ''.'' @ x"
    and "basename (n @ ''.'' @ x) = n @ ''.'' @ x"
    by (rule basename_join, rule basename_plain)
  then show "base_name (d @ ''/'' @ n @ ''.'' @ x) = n" and "base_name (n @ ''.'' @ x) = n"
    using splitext_name_ext[OF assms] by (simp_all add: base_name_def)
qed

lemma splitext_fst_no_sep: "CHR ''/'' \<notin> set p \<Longrightarrow> CHR ''/'' \<notin> set (fst (splitext p))"
  by (auto simp: splitext_def Let_def dest: in_set_takeD)

lemma base_name_no_sep: "CHR ''/'' \<notin> set (base_name p)"
  by (simp add: base_name_def splitext_fst_no_sep basename_no_sep)

section \<open>Facts about the worker\<close>

lemma run_missing:
  "\<not> path_exists fs p \<Longrightarrow> run e fs p m = ([Error (not_found_text p)], fs)"
  by (simp add: run_def)

lemma run_load_fails:
  "path_exists fs p \<Longrightarrow> load_model e m = Inl ex \<Longrightarrow>
   run e fs p m = ([Started (loading_text m), Error (error_message ex)], fs)"
  by (simp add: run_def)

lemma run_transcribe_fails:
  "path_exists fs p \<Longrightarrow> load_model e m = Inr model \<Longrightarrow> transcribe model p = Inl ex \<Longrightarrow>
   run e fs p m =
     ([Started (loading_text m), Progress (loaded_text (device model)), Error (error_message ex)], fs)"
  by (simp add: run_def)

lemma run_no_text:
  "path_exists fs p \<Longrightarrow> load_model e m = Inr model \<Longrightarrow> transcribe model p = Inr result \<Longrightarrow>
   result_text result = Inl ex \<Longrightarrow>
   run e fs p m =
     ([Started (loading_text m), Progress (loaded_text (device model)), Error (error_message ex)], fs)"
  by (simp add: run_def)

lemma run_open_fails:
  "path_exists fs p \<Longrightarrow> load_model e m = Inr model \<Longrightarrow> transcribe model p = Inr result \<Longrightarrow>
   result_text result = Inr t \<Longrightarrow> open_error e (output_filename p m) = Some ex \<Longrightarrow>
   run e fs p m =
     ([Started (loading_text m), Progress (loaded_text (device model)), Error (error_message ex)], fs)"
  by (simp add: run_def write_transcript_def)

lemma run_write_fails:
  "path_exists fs p \<Longrightarrow> load_model e m = Inr model \<Longrightarrow> transcribe model p = Inr result \<Longrightarrow>
   result_text result = Inr t \<Longrightarrow> open_error e (output_filename p m) = None \<Longrightarrow>
   write_error e (output_filename p m) t = Some (written, ex) \<Longrightarrow>
   run e fs p m =
     ([Started (loading_text m), Progress (loaded_text (device model)), Error (error_message ex)],
      fs(output_filename p m \<mapsto> written))"
  by (simp add: run_def write_transcript_def)

lemma run_ok:
  "path_exists fs p \<Longrightarrow> load_model e m = Inr model \<Longrightarrow> transcribe model p = Inr result \<Longrightarrow>
   result_text result = Inr t \<Longrightarrow> open_error e (output_filename p m) = None \<Longrightarrow>
   write_error e (output_filename p m) t = None \<Longrightarrow>
   run e fs p m =
     ([Started (loading_text m), Progress (loaded_text (device model)),
       Complete (summary_text (elapsed_text e) (output_filename p m) t)],
      fs(output_filename p m \<mapsto> t))"
  by (simp add: run_def write_transcript_def Let_def)

text \<open>The seven ways through \<open>run\<close>.\<close>

lemma run_cases:
  obtains
    (missing) "\<not> path_exists fs p"
  | (load) ex where "path_exists fs p" "load_model e m = Inl ex"
  | (transcribe) model ex where "path_exists fs p" "load_model e m = Inr model"
      "transcribe model p = Inl ex"
  | (no_text) model result ex where "path_exists fs p" "load_model e m = Inr model"
      "transcribe model p = Inr result" "result_text result = Inl ex"
  | (open_fails) model result t ex where "path_exists fs p" "load_model e m = Inr model"
      "transcribe model p = Inr result" "result_text result = Inr t"
      "open_error e (output_filename p m) = Some ex"
  | (write_fails) model result t written ex where "path_exists fs p" "load_model e m = Inr model"
      "transcribe model p = Inr result" "result_text result = Inr t"
      "open_error e (output_filename p m) = None"
      "write_error e (output_filename p m) t = Some (written, ex)"
  | (ok) model result t where "path_exists fs p" "load_model e m = Inr model"
      "transcribe model p = Inr result" "result_text result = Inr t"
      "open_error e (output_filename p m) = None"
      "write_error e (output_filename p m) t = None"
proof (cases "path_exists fs p")
  case False
  then show ?thesis by (rule missing)
next
  case ex: True
  show ?thesis
  proof (cases "load_model e m")
    case (Inl x)
    with ex show ?thesis by (rule load)
  next
    case lm: (Inr model)
    show ?thesis
    proof (cases "transcribe model p")
      case (Inl x)
      with ex lm show ?thesis by (rule transcribe)
    next
      case tr: (Inr result)
      show ?thesis
      proof (cases "result_text result")
        case (Inl x)
        with ex lm tr show ?thesis by (rule no_text)
      next
        case rt: (Inr t)
        show ?thesis
        proof (cases "open_error e (output_filename p m)")
          case (Some x)
          with ex lm tr rt show ?thesis by (rule open_fails)
        next
          case op: None
          show ?thesis
          proof (cases "write_error e (output_filename p m) t")
            case None
            with ex lm tr rt op show ?thesis by (rule ok)
          next
            case (Some a)
            then obtain written x where "write_error e (output_filename p m) t = Some (written, x)"
              by (cases a) simp
            with ex lm tr rt op show ?thesis by (rule write_fails)
          qed
        qed
      qed
    qed
  qed
qed

text \<open>A run that emits complete went through every step without an exception.\<close>

lemma run_complete:
  assumes "Complete s \<in> set (fst (run e fs p m))"
  obtains model result t where "path_exists fs p" "load_model e m = Inr model"
      "transcribe model p = Inr result" "result_text result = Inr t"
      "open_error e (output_filename p m) = None"
      "write_error e (output_filename p m) t = None"
      "s = summary_text (elapsed_text e) (output_filename p m) t"
proof (cases rule: run_cases[where fs = fs and p = p and e = e and m = m])
  case missing
  with assms show ?thesis by (simp add: run_missing)
next
  case (load ex)
  with assms show ?thesis by (simp add: run_load_fails)
next
  case (transcribe model ex)
  with assms show ?thesis by (simp add: run_transcribe_fails)
next
  case (no_text model result ex)
  with assms show ?thesis by (simp add: run_no_text)
next
  case (open_fails model result t ex)
  with assms show ?thesis by (simp add: run_open_fails)
next
  case (write_fails model result t written ex)
  with assms show ?thesis by (simp add: run_write_fails)
next
  case (ok model result t)
  with assms have "s = summary_text (elapsed_text e) (output_filename p m) t"
    by (simp add: run_ok)
  with ok show ?thesis by (rule that)
qed

lemma output_filename_sample:
  "output_filename ''sample.wav'' ''balanced'' = ''sample_balanced_transcript.txt''"
  using base_name_shape(2)[of "''sample''" "''wav''"] by (simp add: output_filename_def)

lemma error_message_contains: "sublist (str_exn ex) (error_message ex)"
  unfolding error_message_def by (rule sublist_appendI)

lemma run_pending: "pending (fst (run e fs p m))"
  by (cases rule: run_cases[where fs = fs and p = p and e = e and m = m])
    (simp_all add: run_missing run_load_fails run_transcribe_fails run_no_text run_open_fails
      run_write_fails run_ok)

section \<open>The concrete runs\<close>

lemma sample_exists: "path_exists fs_sample ''sample.wav''"
  by (simp add: path_exists_def fs_sample_def)

lemma result_hello_text: "result_text result_hello = Inr '' Hello world.''"
  by (simp add: result_text_def result_hello_def)

lemma run_sample_ok:
  "run env_ok fs_sample ''sample.wav'' m =
     ([Started (loading_text m), Progress (loaded_text ''cpu''),
       Complete (summary_text ''1.50'' (output_filename ''sample.wav'' m) '' Hello world.'')],
      fs_sample(output_filename ''sample.wav'' m \<mapsto> '' Hello world.''))"
  using run_ok[of fs_sample "''sample.wav''" env_ok m model_ok result_hello "'' Hello world.''"]
  by (simp add: sample_exists result_hello_text env_ok_def model_ok_def)

lemma run_sample_readonly:
  "run env_readonly fs_sample ''sample.wav'' m =
     ([Started (loading_text m), Progress (loaded_text ''cpu''),
       Error (error_message (Exn ''[Errno 13] Permission denied''))], fs_sample)"
  using run_open_fails[of fs_sample "''sample.wav''" env_readonly m model_ok result_hello
      "'' Hello world.''" "Exn ''[Errno 13] Permission denied''"]
  by (simp add: sample_exists result_hello_text env_readonly_def env_ok_def model_ok_def)

lemma run_sample_disk_full:
  "run env_disk_full fs_sample ''sample.wav'' m =
     ([Started (loading_text m), Progress (loaded_text ''cpu''),
       Error (error_message (Exn ''disk full''))], fs_sample)"
  using run_transcribe_fails[of fs_sample "''sample.wav''" env_disk_full m model_disk_full
      "Exn ''disk full''"]
  by (simp add: sample_exists env_disk_full_def env_ok_def model_disk_full_def)

section \<open>Facts about the shell\<close>

lemma init_ui_fields:
  "path_text init_ui = []" "path_enabled init_ui" "browse_enabled init_ui"
  "model_items init_ui = [''base'', ''small'', ''medium'', ''large-v2'']"
  "model_index init_ui = 2" "model_enabled init_ui" "transcribe_enabled init_ui"
  "worker init_ui = None" "dialogs init_ui = []"
  by (simp_all add: init_ui_def update_ui_state_def setCurrentText_def addItems_def
      fresh_widgets_def Let_def)

lemma currentText_in_items:
  assumes "model_inv a"
  shows "currentText a \<in> set (model_items a)"
proof -
  from assms have i: "0 \<le> model_index a" "nat (model_index a) < length (model_items a)"
    by (auto simp: model_inv_def)
  then have "model_index a < int (length (model_items a))" by linarith
  with i(1) have "currentText a = model_items a ! nat (model_index a)"
    by (simp add: currentText_def)
  with i(2) show ?thesis by (simp only: nth_mem)
qed

lemma model_inv_init: "model_inv init_ui"
  by (simp add: model_inv_def init_ui_fields)

lemma model_inv_handle: "model_inv a \<Longrightarrow> model_inv (handle n a)"
  by (cases n)
    (simp_all add: model_inv_def handle_started_def handle_progress_def handle_complete_def
      handle_error_def update_ui_state_def Let_def)

lemma model_inv_start:
  assumes "model_inv a"
  shows "model_inv (fst (start_transcription fs a))"
proof -
  from currentText_in_items[OF assms] assms
  have "currentText a \<in> {''base'', ''small'', ''medium'', ''large-v2''}"
    by (simp add: model_inv_def)
  with assms show ?thesis
    by (simp add: model_inv_def start_transcription_def update_ui_state_def Let_def)
qed

lemma model_inv_step: "model_inv (ui s) \<Longrightarrow> model_inv (ui (step ev s))"
proof (cases ev)
  case (Click_transcribe fs fs' e)
  assume "model_inv (ui s)"
  then show ?thesis
    using model_inv_start[of "ui s" fs] Click_transcribe by (simp add: split_beta)
next
  case (Click_browse filepath)
  assume "model_inv (ui s)"
  then show ?thesis
    using Click_browse by (simp add: model_inv_def select_audio_file_def)
next
  case (Select_model i)
  assume "model_inv (ui s)"
  then show ?thesis
    using Select_model by (auto simp: model_inv_def)
next
  case (Deliver k)
  assume "model_inv (ui s)"
  then show ?thesis
    using Deliver by (simp add: deliver_def model_inv_handle split: list.split)
qed

lemma model_inv_exec: "model_inv (ui s) \<Longrightarrow> model_inv (ui (exec evs s))"
  by (induction evs arbitrary: s) (simp_all add: model_inv_step)

lemma model_inv_init_sys: "model_inv (ui init_sys)"
  by (simp add: init_sys_def model_inv_init)

lemma start_sample:
  "start_transcription fs_sample (select_audio_file ''sample.wav'' init_ui) =
     ((update_ui_state False (select_audio_file ''sample.wav'' init_ui))
        \<lparr>output_text := [], status_text := ''Starting process...'',
         worker := Some (''sample.wav'', ''medium'')\<rparr>,
      Some (''sample.wav'', ''medium''))"
proof -
  have "path_text (select_audio_file ''sample.wav'' init_ui) = ''sample.wav''"
    by (simp add: select_audio_file_def)
  moreover have "currentText (select_audio_file ''sample.wav'' init_ui) = ''medium''"
    by (simp add: select_audio_file_def currentText_def init_ui_fields)
  ultimately show ?thesis
    by (simp add: start_transcription_def sample_exists Let_def)
qed

lemma exec_started:
  "exec evs_started init_sys =
     \<lparr>ui = fst (start_transcription fs_sample (select_audio_file ''sample.wav'' init_ui)),
      threads = [fst (run env_ok fs_sample ''sample.wav'' ''medium'')]\<rparr>"
proof -
  have "transcribe_enabled (select_audio_file ''sample.wav'' init_ui)"
    by (simp add: select_audio_file_def init_ui_fields)
  then show ?thesis
    by (simp add: evs_started_def init_sys_def init_ui_fields start_sample spawn_def)
qed

section \<open>One worker at a time\<close>

lemma controls_handle_terminal:
  "is_terminal n \<Longrightarrow> controls True (handle n a) \<and> worker (handle n a) = None"
  by (cases n)
    (simp_all add: handle_complete_def handle_error_def update_ui_state_def controls_def Let_def)

lemma controls_handle_nonterminal:
  "\<not> is_terminal n \<Longrightarrow> controls b (handle n a) = controls b a \<and> worker (handle n a) = worker a"
  by (cases n) (simp_all add: handle_started_def handle_progress_def controls_def)

lemma busy_inv_init: "busy_inv init_sys"
  by (simp add: busy_inv_def init_sys_def controls_def init_ui_fields)

lemma busy_inv_start:
  assumes "busy_inv s" and "transcribe_enabled (ui s)"
  shows "busy_inv (step (Click_transcribe fs fs' e) s)"
proof -
  from assms have idle: "threads s = []" "controls True (ui s)" "worker (ui s) = None"
    by (auto simp: busy_inv_def controls_def split: list.splits)
  show ?thesis
  proof (cases "path_text (ui s) = [] \<or> \<not> path_exists fs (path_text (ui s))")
    case True
    with idle assms(2) show ?thesis
      by (auto simp: busy_inv_def controls_def start_transcription_def spawn_def)
  next
    case False
    with idle assms(2) show ?thesis
      by (simp add: busy_inv_def controls_def start_transcription_def spawn_def Let_def
          update_ui_state_def run_pending)
  qed
qed

lemma busy_inv_deliver:
  assumes "busy_inv s"
  shows "busy_inv (deliver k s)"
proof (cases "threads s")
  case Nil
  with assms show ?thesis by (simp add: deliver_def)
next
  case (Cons q qs)
  with assms have one: "threads s = [q]" and busy: "controls False (ui s)" "worker (ui s) \<noteq> None"
    and q: "pending q"
    by (auto simp: busy_inv_def split: list.splits)
  show ?thesis
  proof (cases k)
    case (Suc j)
    with one assms show ?thesis by (simp add: deliver_def)
  next
    case 0
    from q obtain n rest where nr: "q = n # rest" by (cases q) auto
    show ?thesis
    proof (cases rest)
      case Nil
      with q nr have "is_terminal n" by simp
      then have "controls True (handle n (ui s)) \<and> worker (handle n (ui s)) = None"
        by (rule controls_handle_terminal)
      with one nr Nil 0 show ?thesis by (simp add: deliver_def busy_inv_def)
    next
      case (Cons r rs)
      with q nr have "\<not> is_terminal n" "pending rest" by simp_all
      with busy controls_handle_nonterminal[of n False "ui s"] one nr Cons 0 show ?thesis
        by (simp add: deliver_def busy_inv_def)
    qed
  qed
qed

lemma busy_inv_step: "busy_inv s \<Longrightarrow> busy_inv (step ev s)"
proof (cases ev)
  case (Click_transcribe fs fs' e)
  assume "busy_inv s"
  then show ?thesis
    using Click_transcribe busy_inv_start[of s fs fs' e]
    by (cases "transcribe_enabled (ui s)") simp_all
next
  case (Click_browse filepath)
  assume "busy_inv s"
  then show ?thesis
    using Click_browse
    by (auto simp: busy_inv_def controls_def select_audio_file_def split: list.splits)
next
  case (Select_model i)
  assume "busy_inv s"
  then show ?thesis
    using Select_model by (auto simp: busy_inv_def controls_def split: list.splits)
next
  case (Deliver k)
  assume "busy_inv s"
  then show ?thesis
    using Deliver by (simp add: busy_inv_deliver)
qed

lemma exec_append: "exec (xs @ ys) s = exec ys (exec xs s)"
  by (induction xs arbitrary: s) simp_all

lemma busy_inv_exec: "busy_inv s \<Longrightarrow> busy_inv (exec evs s)"
  by (induction evs arbitrary: s) (simp_all add: busy_inv_step)

section \<open>The claims\<close>

text \<open>
  C1. A run that emits complete has written one file, under the name made of the input
  path's base name without its extension, an underscore, the model name and
  \<open>_transcript.txt\<close>; the name has no directory part when the model name has none, so the
  file lies in the working directory; for \<open>sample.wav\<close> and the model name \<open>balanced\<close>
  the name is \<open>sample_balanced_transcript.txt\<close>.
\<close>

theorem C1_output_file_name:
  "(Complete s \<in> set (fst (run e fs p m)) \<longrightarrow>
      (\<exists>t. snd (run e fs p m)
              = fs(fst (splitext (basename p)) @ ''_'' @ m @ ''_transcript.txt'' \<mapsto> t)))
   \<and> output_filename p m = fst (splitext (basename p)) @ ''_'' @ m @ ''_transcript.txt''
   \<and> (CHR ''/'' \<notin> set m \<longrightarrow> CHR ''/'' \<notin> set (output_filename p m))
   \<and> output_filename ''sample.wav'' ''balanced'' = ''sample_balanced_transcript.txt''"
proof (intro conjI impI)
  show name: "output_filename p m = fst (splitext (basename p)) @ ''_'' @ m @ ''_transcript.txt''"
    by (simp add: output_filename_def base_name_def)
  assume "Complete s \<in> set (fst (run e fs p m))"
  then obtain model result t where "path_exists fs p" "load_model e m = Inr model"
      "transcribe model p = Inr result" "result_text result = Inr t"
      "open_error e (output_filename p m) = None"
      "write_error e (output_filename p m) t = None"
    by (rule run_complete)
  then have "snd (run e fs p m) = fs(output_filename p m \<mapsto> t)" by (simp add: run_ok)
  then show "\<exists>t. snd (run e fs p m)
      = fs(fst (splitext (basename p)) @ ''_'' @ m @ ''_transcript.txt'' \<mapsto> t)"
    unfolding name by (rule exI)
next
  assume "CHR ''/'' \<notin> set m"
  then show "CHR ''/'' \<notin> set (output_filename p m)"
    using base_name_no_sep[of p] by (simp add: output_filename_def)
next
  show "output_filename ''sample.wav'' ''balanced'' = ''sample_balanced_transcript.txt''"
    by (rule output_filename_sample)
qed

theorem C1_output_file_name_witness:
  "Complete (summary_text ''1.50'' ''sample_balanced_transcript.txt'' '' Hello world.'')
     \<in> set (fst (run env_ok fs_sample ''sample.wav'' ''balanced''))
   \<and> (\<exists>t. snd (run env_ok fs_sample ''sample.wav'' ''balanced'')
            = fs_sample(''sample_balanced_transcript.txt'' \<mapsto> t))
   \<and> CHR ''/'' \<notin> set ''balanced''
   \<and> CHR ''/'' \<notin> set (output_filename ''sample.wav'' ''balanced'')"
proof -
  let ?s = "summary_text ''1.50'' ''sample_balanced_transcript.txt'' '' Hello world.''"
  note c1 = C1_output_file_name[of ?s env_ok fs_sample "''sample.wav''" "''balanced''"]
  have name: "fst (splitext (basename ''sample.wav'')) @ ''_'' @ ''balanced'' @ ''_transcript.txt''
      = ''sample_balanced_transcript.txt''"
    using c1 by metis
  have emitted: "Complete ?s \<in> set (fst (run env_ok fs_sample ''sample.wav'' ''balanced''))"
    by (simp add: run_sample_ok output_filename_sample)
  with c1 have "\<exists>t. snd (run env_ok fs_sample ''sample.wav'' ''balanced'')
      = fs_sample(fst (splitext (basename ''sample.wav'')) @ ''_'' @ ''balanced'' @ ''_transcript.txt''
          \<mapsto> t)"
    by blast
  then have written: "\<exists>t. snd (run env_ok fs_sample ''sample.wav'' ''balanced'')
      = fs_sample(''sample_balanced_transcript.txt'' \<mapsto> t)"
    unfolding name .
  have model: "CHR ''/'' \<notin> set ''balanced''" by simp
  with c1 have "CHR ''/'' \<notin> set (output_filename ''sample.wav'' ''balanced'')" by blast
  with emitted written model show ?thesis by blast
qed

text \<open>
  C2, as stated, fails where the engine answers and the output file cannot be opened:
  the input exists, the model loads, inference returns a text, and after the run there
  is no output file; the run ends with an error notification.
\<close>

theorem C2_counterexample:
  "path_exists fs_sample ''sample.wav''
   \<and> load_model env_readonly ''medium'' = Inr model_ok
   \<and> transcribe model_ok ''sample.wav'' = Inr result_hello
   \<and> result_text result_hello = Inr '' Hello world.''
   \<and> output_filename ''sample.wav'' ''medium'' = ''sample_medium_transcript.txt''
   \<and> snd (run env_readonly fs_sample ''sample.wav'' ''medium'') ''sample_medium_transcript.txt'' = None
   \<and> fst (run env_readonly fs_sample ''sample.wav'' ''medium'') =
       [Started ''Loading Whisper model: medium...'',
        Progress ''Model loaded successfully. Running on device: cpu. Starting transcription...'',
        Error ''An unexpected error occurred: [Errno 13] Permission denied. Check FFmpeg installation and file permissions.'']"
proof -
  have "output_filename ''sample.wav'' ''medium'' = ''sample_medium_transcript.txt''"
    using base_name_shape(2)[of "''sample''" "''wav''"] by (simp add: output_filename_def)
  moreover have "fs_sample ''sample_medium_transcript.txt'' = None"
    by (simp add: fs_sample_def)
  moreover have "snd (run env_readonly fs_sample ''sample.wav'' ''medium'') = fs_sample"
    by (simp add: run_sample_readonly)
  moreover have "fst (run env_readonly fs_sample ''sample.wav'' ''medium'') =
       [Started ''Loading Whisper model: medium...'',
        Progress ''Model loaded successfully. Running on device: cpu. Starting transcription...'',
        Error ''An unexpected error occurred: [Errno 13] Permission denied. Check FFmpeg installation and file permissions.'']"
    by (simp add: run_sample_readonly loading_text_def loaded_text_def error_message_def)
  moreover have "load_model env_readonly ''medium'' = Inr model_ok"
    and "transcribe model_ok ''sample.wav'' = Inr result_hello"
    by (simp_all add: env_readonly_def env_ok_def model_ok_def)
  ultimately show ?thesis
    by (simp add: sample_exists result_hello_text)
qed

text \<open>
  C2, amended. When the input exists, the model loads, inference returns a text, and the
  output file is opened and written without an exception, then after the run the output
  file holds exactly that text, every other file is as before, and the run ends with
  complete.
\<close>

theorem C2_transcript_written:
  assumes "path_exists fs p" and "load_model e m = Inr model"
    and "transcribe model p = Inr result" and "result ''text'' = Some t"
    and "open_error e (output_filename p m) = None"
    and "write_error e (output_filename p m) t = None"
  shows "snd (run e fs p m) (output_filename p m) = Some t
    \<and> (\<forall>q. q \<noteq> output_filename p m \<longrightarrow> snd (run e fs p m) q = fs q)
    \<and> fst (run e fs p m) =
        [Started (loading_text m), Progress (loaded_text (device model)),
         Complete (summary_text (elapsed_text e) (output_filename p m) t)]"
proof -
  from assms(4) have "result_text result = Inr t" by (simp add: result_text_def)
  with assms have "run e fs p m =
     ([Started (loading_text m), Progress (loaded_text (device model)),
       Complete (summary_text (elapsed_text e) (output_filename p m) t)],
      fs(output_filename p m \<mapsto> t))"
    by (simp add: run_ok)
  then show ?thesis by simp
qed

theorem C2_transcript_written_witness:
  "path_exists fs_sample ''sample.wav''
   \<and> load_model env_ok ''medium'' = Inr model_ok
   \<and> transcribe model_ok ''sample.wav'' = Inr result_hello
   \<and> result_hello ''text'' = Some '' Hello world.''
   \<and> open_error env_ok (output_filename ''sample.wav'' ''medium'') = None
   \<and> write_error env_ok (output_filename ''sample.wav'' ''medium'') '' Hello world.'' = None
   \<and> snd (run env_ok fs_sample ''sample.wav'' ''medium'') (output_filename ''sample.wav'' ''medium'')
       = Some '' Hello world.''
   \<and> snd (run env_ok fs_sample ''sample.wav'' ''medium'') ''sample.wav'' = Some ''RIFF''"
proof -
  have h: "path_exists fs_sample ''sample.wav''" "load_model env_ok ''medium'' = Inr model_ok"
    "transcribe model_ok ''sample.wav'' = Inr result_hello"
    "result_hello ''text'' = Some '' Hello world.''"
    "open_error env_ok (output_filename ''sample.wav'' ''medium'') = None"
    "write_error env_ok (output_filename ''sample.wav'' ''medium'') '' Hello world.'' = None"
    by (simp_all add: sample_exists env_ok_def model_ok_def result_hello_def)
  have other: "''sample.wav'' \<noteq> output_filename ''sample.wav'' ''medium''"
    by (simp add: output_filename_def)
  note c2 = C2_transcript_written[OF h]
  from c2 other have "snd (run env_ok fs_sample ''sample.wav'' ''medium'') ''sample.wav''
      = fs_sample ''sample.wav''"
    by blast
  then have "snd (run env_ok fs_sample ''sample.wav'' ''medium'') ''sample.wav'' = Some ''RIFF''"
    by (simp add: fs_sample_def)
  with h c2 show ?thesis by blast
qed

text \<open>
  C3. When the path field is empty or names no existing file, \<open>start_transcription\<close>
  starts no worker thread and shows the input-error message box; nothing else of the
  window changes: the worker reference and every control are as before.
\<close>

theorem C3_invalid_path_rejected:
  assumes "path_text a = [] \<or> \<not> path_exists fs (path_text a)"
  shows "start_transcription fs a = (a\<lparr>dialogs := dialogs a @ [input_error]\<rparr>, None)
    \<and> snd (start_transcription fs a) = None
    \<and> worker (fst (start_transcription fs a)) = worker a
    \<and> browse_enabled (fst (start_transcription fs a)) = browse_enabled a
    \<and> path_enabled (fst (start_transcription fs a)) = path_enabled a
    \<and> model_enabled (fst (start_transcription fs a)) = model_enabled a
    \<and> transcribe_enabled (fst (start_transcription fs a)) = transcribe_enabled a
    \<and> dialogs (fst (start_transcription fs a)) = dialogs a
         @ [Warning ''Input Error'' ''Please select a valid audio file before starting transcription.'']
    \<and> threads (step (Click_transcribe fs fs' e) \<lparr>ui = a, threads = ts\<rparr>) = ts"
  using assms by (auto simp: start_transcription_def input_error_def spawn_def)

theorem C3_invalid_path_rejected_witness:
  "path_text init_ui = []
   \<and> snd (start_transcription fs_sample init_ui) = None
   \<and> worker (fst (start_transcription fs_sample init_ui)) = None
   \<and> transcribe_enabled (fst (start_transcription fs_sample init_ui))
   \<and> dialogs (fst (start_transcription fs_sample init_ui))
       = [Warning ''Input Error'' ''Please select a valid audio file before starting transcription.'']
   \<and> \<not> path_exists fs_sample (path_text (select_audio_file ''missing.wav'' init_ui))
   \<and> snd (start_transcription fs_sample (select_audio_file ''missing.wav'' init_ui)) = None"
proof -
  have h1: "path_text init_ui = [] \<or> \<not> path_exists fs_sample (path_text init_ui)"
    by (simp add: init_ui_fields)
  have missing: "\<not> path_exists fs_sample (path_text (select_audio_file ''missing.wav'' init_ui))"
    by (simp add: select_audio_file_def path_exists_def fs_sample_def)
  then have h2: "path_text (select_audio_file ''missing.wav'' init_ui) = []
      \<or> \<not> path_exists fs_sample (path_text (select_audio_file ''missing.wav'' init_ui))"
    by (rule disjI2)
  from C3_invalid_path_rejected[OF h1] C3_invalid_path_rejected[OF h2] missing
  show ?thesis by (simp add: init_ui_fields input_error_def)
qed

text \<open>
  C4. When the input exists and the model load raises, or inference raises (in
  \<open>transcribe\<close> or at \<open>result["text"]\<close>), the run emits exactly one terminal notification,
  the error whose text holds the message of the exception; it emits no complete, and the
  files are as before: the write is skipped.
\<close>

theorem C4_exception_reported:
  assumes "path_exists fs p"
    and "load_model e m = Inl ex
      \<or> (\<exists>model. load_model e m = Inr model
            \<and> (transcribe model p = Inl ex
                \<or> (\<exists>result. transcribe model p = Inr result \<and> result_text result = Inl ex)))"
  shows "filter is_terminal (fst (run e fs p m)) = [Error (error_message ex)]
    \<and> error_message ex = ''An unexpected error occurred: '' @ str_exn ex
          @ ''. Check FFmpeg installation and file permissions.''
    \<and> sublist (str_exn ex) (error_message ex)
    \<and> snd (run e fs p m) = fs"
proof -
  from assms(2) have "filter is_terminal (fst (run e fs p m)) = [Error (error_message ex)]
      \<and> snd (run e fs p m) = fs"
    using assms(1) by (auto simp: run_load_fails run_transcribe_fails run_no_text)
  then show ?thesis
    using error_message_contains[of ex] by (simp add: error_message_def)
qed

theorem C4_exception_reported_witness:
  "path_exists fs_sample ''sample.wav''
   \<and> load_model env_disk_full ''medium'' = Inr model_disk_full
   \<and> transcribe model_disk_full ''sample.wav'' = Inl (Exn ''disk full'')
   \<and> filter is_terminal (fst (run env_disk_full fs_sample ''sample.wav'' ''medium''))
       = [Error ''An unexpected error occurred: disk full. Check FFmpeg installation and file permissions.'']
   \<and> sublist ''disk full''
        ''An unexpected error occurred: disk full. Check FFmpeg installation and file permissions.''
   \<and> snd (run env_disk_full fs_sample ''sample.wav'' ''medium'') = fs_sample"
proof -
  have h1: "path_exists fs_sample ''sample.wav''" by (rule sample_exists)
  have h2: "load_model env_disk_full ''medium'' = Inr model_disk_full"
    by (simp add: env_disk_full_def)
  have h3: "transcribe model_disk_full ''sample.wav'' = Inl (Exn ''disk full'')"
    by (simp add: model_disk_full_def)
  from h2 h3 have h: "load_model env_disk_full ''medium'' = Inl (Exn ''disk full'')
      \<or> (\<exists>model. load_model env_disk_full ''medium'' = Inr model
            \<and> (transcribe model ''sample.wav'' = Inl (Exn ''disk full'')
                \<or> (\<exists>result. transcribe model ''sample.wav'' = Inr result
                      \<and> result_text result = Inl (Exn ''disk full''))))"
    by blast
  have msg: "error_message (Exn ''disk full'') =
      ''An unexpected error occurred: disk full. Check FFmpeg installation and file permissions.''"
    by (simp add: error_message_def)
  from C4_exception_reported[OF h1 h] h1 h2 h3 show ?thesis
    unfolding msg by simp
qed

text \<open>
  C5. In every state that the window reaches from its start, under any clicks, choices
  and deliveries of notifications, at most one worker is running; while one runs, the
  start button and the other three input controls are disabled and \<open>self.worker\<close> is
  set, and a click on the start button changes nothing: no second worker is started.
  While none runs, \<open>self.worker\<close> is \<open>None\<close>.
\<close>

theorem C5_single_job:
  "length (threads (exec evs init_sys)) \<le> 1
   \<and> ((threads (exec evs init_sys) \<noteq> []) = (worker (ui (exec evs init_sys)) \<noteq> None))
   \<and> (threads (exec evs init_sys) \<noteq> [] \<longrightarrow>
        \<not> transcribe_enabled (ui (exec evs init_sys))
        \<and> \<not> browse_enabled (ui (exec evs init_sys))
        \<and> \<not> path_enabled (ui (exec evs init_sys))
        \<and> \<not> model_enabled (ui (exec evs init_sys))
        \<and> step (Click_transcribe fs fs' e) (exec evs init_sys) = exec evs init_sys
        \<and> threads (exec (evs @ [Click_transcribe fs fs' e]) init_sys)
            = threads (exec evs init_sys))"
proof -
  have app: "exec (evs @ [Click_transcribe fs fs' e]) init_sys
      = step (Click_transcribe fs fs' e) (exec evs init_sys)"
    by (simp add: exec_append)
  have "busy_inv (exec evs init_sys)"
    using busy_inv_init by (rule busy_inv_exec)
  then show ?thesis
    unfolding app by (auto simp: busy_inv_def controls_def split: list.splits)
qed

theorem C5_single_job_witness:
  "threads (exec evs_started init_sys) \<noteq> []
   \<and> length (threads (exec evs_started init_sys)) \<le> 1
   \<and> worker (ui (exec evs_started init_sys)) \<noteq> None
   \<and> \<not> transcribe_enabled (ui (exec evs_started init_sys))
   \<and> step (Click_transcribe fs_sample fs_sample env_ok) (exec evs_started init_sys)
       = exec evs_started init_sys
   \<and> threads (exec (evs_started @ [Click_transcribe fs_sample fs_sample env_ok]) init_sys)
       = threads (exec evs_started init_sys)"
proof -
  have running: "threads (exec evs_started init_sys) \<noteq> []"
    by (simp add: exec_started)
  with C5_single_job[of evs_started fs_sample fs_sample env_ok] show ?thesis
    by blast
qed

text \<open>
  C6, as stated, fails where the model cannot be loaded: the run emits started and then
  the error, with no progress between them. Where the input is missing, the error is
  the only notification.
\<close>

theorem C6_counterexample:
  "fst (run env_load_fails fs_sample ''sample.wav'' ''medium'') =
     [Started ''Loading Whisper model: medium...'',
      Error ''An unexpected error occurred: download failed. Check FFmpeg installation and file permissions.'']
   \<and> fst (run env_ok fs_sample ''missing.wav'' ''medium'') = [Error (not_found_text ''missing.wav'')]"
proof -
  have "path_exists fs_sample ''sample.wav''" by (rule sample_exists)
  moreover have "load_model env_load_fails ''medium'' = Inl (Exn ''download failed'')"
    by (simp add: env_load_fails_def)
  ultimately have "run env_load_fails fs_sample ''sample.wav'' ''medium'' =
      ([Started (loading_text ''medium''), Error (error_message (Exn ''download failed''))], fs_sample)"
    by (rule run_load_fails)
  moreover have "\<not> path_exists fs_sample ''missing.wav''"
    by (simp add: path_exists_def fs_sample_def)
  ultimately show ?thesis
    by (simp add: run_missing loading_text_def error_message_def)
qed

text \<open>
  C6, amended. Every run emits one of four sequences: the error alone; started, then the
  error; started, progress, then the error; started, progress, then complete. So started
  comes first when it is emitted, progress only after started, exactly one terminal
  notification is emitted and it is the last. Started is emitted exactly when the input
  exists at the start of the run, progress exactly when moreover the model loads.
\<close>

theorem C6_lifecycle_order:
  "((\<exists>msg. fst (run e fs p m) = [Error msg])
     \<or> (\<exists>msg. fst (run e fs p m) = [Started (loading_text m), Error msg])
     \<or> (\<exists>dev msg. fst (run e fs p m)
            = [Started (loading_text m), Progress (loaded_text dev), Error msg])
     \<or> (\<exists>dev s. fst (run e fs p m)
            = [Started (loading_text m), Progress (loaded_text dev), Complete s]))
   \<and> length (filter is_terminal (fst (run e fs p m))) = 1
   \<and> is_terminal (last (fst (run e fs p m)))
   \<and> ((\<exists>a. Started a \<in> set (fst (run e fs p m))) = path_exists fs p)
   \<and> ((\<exists>b. Progress b \<in> set (fst (run e fs p m)))
        = (path_exists fs p \<and> (\<exists>model. load_model e m = Inr model)))"
proof (cases rule: run_cases[where fs = fs and p = p and e = e and m = m])
  case missing
  then show ?thesis by (simp add: run_missing)
next
  case (load ex)
  then show ?thesis by (simp add: run_load_fails)
next
  case (transcribe model ex)
  then show ?thesis by (auto simp: run_transcribe_fails)
next
  case (no_text model result ex)
  then show ?thesis by (auto simp: run_no_text)
next
  case (open_fails model result t ex)
  then show ?thesis by (auto simp: run_open_fails)
next
  case (write_fails model result t written ex)
  then show ?thesis by (auto simp: run_write_fails)
next
  case (ok model result t)
  then show ?thesis by (auto simp: run_ok)
qed

theorem C6_lifecycle_order_witness:
  "fst (run env_ok fs_sample ''sample.wav'' ''medium'') =
     [Started ''Loading Whisper model: medium...'',
      Progress ''Model loaded successfully. Running on device: cpu. Starting transcription...'',
      Complete (summary_text ''1.50'' (output_filename ''sample.wav'' ''medium'') '' Hello world.'')]
   \<and> length (filter is_terminal (fst (run env_ok fs_sample ''sample.wav'' ''medium''))) = 1
   \<and> is_terminal (last (fst (run env_ok fs_sample ''sample.wav'' ''medium'')))"
  using C6_lifecycle_order[of env_ok fs_sample "''sample.wav''" "''medium''"]
  by (simp add: run_sample_ok loading_text_def loaded_text_def)

text \<open>
  C7. Each of the two slots for a terminal notification, \<open>handle_complete\<close> and
  \<open>handle_error\<close>, leaves the browse button, the path field, the model selector and the
  start button enabled and \<open>self.worker\<close> \<open>None\<close>, whatever the window was before.
\<close>

theorem C7_terminal_restores_ready:
  "controls True (handle_complete summary a) \<and> worker (handle_complete summary a) = None
   \<and> controls True (handle_error message a) \<and> worker (handle_error message a) = None
   \<and> browse_enabled (handle_complete summary a) \<and> path_enabled (handle_complete summary a)
   \<and> model_enabled (handle_complete summary a) \<and> transcribe_enabled (handle_complete summary a)
   \<and> browse_enabled (handle_error message a) \<and> path_enabled (handle_error message a)
   \<and> model_enabled (handle_error message a) \<and> transcribe_enabled (handle_error message a)
   \<and> (is_terminal n \<longrightarrow> controls True (handle n a) \<and> worker (handle n a) = None)"
  by (cases n)
    (simp_all add: handle_complete_def handle_error_def update_ui_state_def controls_def Let_def)

theorem C7_terminal_restores_ready_witness:
  "is_terminal (Error ''boom'')
   \<and> \<not> transcribe_enabled (fst (start_transcription fs_sample (select_audio_file ''sample.wav'' init_ui)))
   \<and> worker (fst (start_transcription fs_sample (select_audio_file ''sample.wav'' init_ui)))
       = Some (''sample.wav'', ''medium'')
   \<and> controls True (handle (Error ''boom'')
        (fst (start_transcription fs_sample (select_audio_file ''sample.wav'' init_ui))))
   \<and> worker (handle (Error ''boom'')
        (fst (start_transcription fs_sample (select_audio_file ''sample.wav'' init_ui)))) = None"
proof -
  let ?a = "fst (start_transcription fs_sample (select_audio_file ''sample.wav'' init_ui))"
  have t: "is_terminal (Error ''boom'')" by simp
  have "path_exists fs_sample (path_text (select_audio_file ''sample.wav'' init_ui))"
    by (simp add: select_audio_file_def sample_exists)
  then have "\<not> transcribe_enabled ?a \<and> worker ?a = Some (''sample.wav'', ''medium'')"
    by (simp add: start_transcription_def select_audio_file_def update_ui_state_def Let_def
        currentText_def init_ui_fields)
  with t C7_terminal_restores_ready[where a = ?a and n = "Error ''boom''"] show ?thesis by blast
qed

text \<open>
  C8. The combo box is filled with exactly four distinct model sizes, \<open>base\<close>, \<open>small\<close>,
  \<open>medium\<close> and \<open>large-v2\<close>, and \<open>medium\<close>, the one that the source calls the best trade-off
  of accuracy and speed, is selected at the start. Whatever happens to the window
  afterwards, the items stay these four, the selection is one of them, and so is the
  model name of every worker.
\<close>

theorem C8_model_selection:
  "model_items init_ui = [''base'', ''small'', ''medium'', ''large-v2'']
   \<and> length (model_items init_ui) = 4
   \<and> distinct (model_items init_ui)
   \<and> currentText init_ui = ''medium''
   \<and> model_items (ui (exec evs init_sys)) = model_items init_ui
   \<and> currentText (ui (exec evs init_sys)) \<in> {''base'', ''small'', ''medium'', ''large-v2''}
   \<and> (worker (ui (exec evs init_sys)) = Some (audio_path, model_name)
        \<longrightarrow> model_name \<in> {''base'', ''small'', ''medium'', ''large-v2''})"
proof -
  have inv: "model_inv (ui (exec evs init_sys))"
    using model_inv_init_sys by (rule model_inv_exec)
  then have "currentText (ui (exec evs init_sys)) \<in> set (model_items (ui (exec evs init_sys)))"
    by (rule currentText_in_items)
  with inv show ?thesis
    by (auto simp: model_inv_def init_ui_fields currentText_def)
qed

theorem C8_model_selection_witness:
  "worker (ui (exec evs_started init_sys)) = Some (''sample.wav'', ''medium'')
   \<and> ''medium'' \<in> {''base'', ''small'', ''medium'', ''large-v2''}
   \<and> currentText (ui (exec evs_started init_sys)) \<in> {''base'', ''small'', ''medium'', ''large-v2''}"
proof -
  have "worker (ui (exec evs_started init_sys)) = Some (''sample.wav'', ''medium'')"
    by (simp add: exec_started start_sample)
  with C8_model_selection[of evs_started "''sample.wav''" "''medium''"] show ?thesis
    by blast
qed

text \<open>
  C9. The output file name is a function of the base name without extension and of the
  model name: two input paths that agree on it, and so any two with the same base name
  whatever their directories, give the same name for the same model, and two runs that
  complete on them write under that one name.
\<close>

theorem C9_name_ignores_directory:
  assumes "fst (splitext (basename p1)) = fst (splitext (basename p2))"
  shows "output_filename p1 m = output_filename p2 m
    \<and> (basename p1 = basename p2 \<longrightarrow> output_filename p1 m = output_filename p2 m)
    \<and> (CHR ''/'' \<notin> set f \<longrightarrow> output_filename (d1 @ ''/'' @ f) m = output_filename (d2 @ ''/'' @ f) m
          \<and> output_filename (d1 @ ''/'' @ f) m = output_filename f m)
    \<and> (Complete s1 \<in> set (fst (run e1 fs1 p1 m)) \<and> Complete s2 \<in> set (fst (run e2 fs2 p2 m))
        \<longrightarrow> (\<exists>t1 t2. snd (run e1 fs1 p1 m) = fs1(output_filename p1 m \<mapsto> t1)
              \<and> snd (run e2 fs2 p2 m) = fs2(output_filename p1 m \<mapsto> t2)))"
proof (intro conjI impI)
  show eq: "output_filename p1 m = output_filename p2 m"
    using assms by (simp add: output_filename_def base_name_def)
  show "output_filename p1 m = output_filename p2 m" if "basename p1 = basename p2"
    using that by (simp add: output_filename_def base_name_def)
  show "output_filename (d1 @ ''/'' @ f) m = output_filename (d2 @ ''/'' @ f) m"
    if "CHR ''/'' \<notin> set f"
    using that basename_join[of f] by (simp add: output_filename_def base_name_def)
  show "output_filename (d1 @ ''/'' @ f) m = output_filename f m" if "CHR ''/'' \<notin> set f"
    using that basename_join[of f d1] basename_plain[of f]
    by (simp add: output_filename_def base_name_def)
  assume both: "Complete s1 \<in> set (fst (run e1 fs1 p1 m)) \<and> Complete s2 \<in> set (fst (run e2 fs2 p2 m))"
  from both obtain model1 result1 t1 where "path_exists fs1 p1" "load_model e1 m = Inr model1"
      "transcribe model1 p1 = Inr result1" "result_text result1 = Inr t1"
      "open_error e1 (output_filename p1 m) = None"
      "write_error e1 (output_filename p1 m) t1 = None"
    by (blast elim: run_complete)
  then have r1: "snd (run e1 fs1 p1 m) = fs1(output_filename p1 m \<mapsto> t1)"
    by (simp add: run_ok)
  from both obtain model2 result2 t2 where "path_exists fs2 p2" "load_model e2 m = Inr model2"
      "transcribe model2 p2 = Inr result2" "result_text result2 = Inr t2"
      "open_error e2 (output_filename p2 m) = None"
      "write_error e2 (output_filename p2 m) t2 = None"
    by (blast elim: run_complete)
  then have "snd (run e2 fs2 p2 m) = fs2(output_filename p2 m \<mapsto> t2)"
    by (simp add: run_ok)
  with r1 eq show "\<exists>t1 t2. snd (run e1 fs1 p1 m) = fs1(output_filename p1 m \<mapsto> t1)
      \<and> snd (run e2 fs2 p2 m) = fs2(output_filename p1 m \<mapsto> t2)"
    by auto
qed

theorem C9_name_ignores_directory_witness:
  "fst (splitext (basename ''/a/sample.wav'')) = fst (splitext (basename ''/b/sample.wav''))
   \<and> output_filename ''/a/sample.wav'' ''medium'' = output_filename ''/b/sample.wav'' ''medium''
   \<and> output_filename ''/a/sample.wav'' ''medium'' = ''sample_medium_transcript.txt''"
proof -
  have a: "base_name ''/a/sample.wav'' = ''sample''"
    using base_name_shape(1)[of "''sample''" "''wav''" "''/a''"] by simp
  have b: "base_name ''/b/sample.wav'' = ''sample''"
    using base_name_shape(1)[of "''sample''" "''wav''" "''/b''"] by simp
  from a b have h: "fst (splitext (basename ''/a/sample.wav''))
      = fst (splitext (basename ''/b/sample.wav''))"
    by (simp add: base_name_def)
  have "output_filename ''/a/sample.wav'' ''medium'' = ''sample_medium_transcript.txt''"
    using a by (simp add: output_filename_def)
  with h C9_name_ignores_directory[OF h, of "''medium''"] show ?thesis by blast
qed

text \<open>
  C10. The slots for started and progress set the text of the status label and nothing
  else: every control keeps its enabled state, and \<open>self.worker\<close>, the output log and
  the message boxes are as before. So after any notifications that are not terminal the
  window differs from the one before them in the status text at most.
\<close>

theorem C10_nonterminal_frame:
  "(handle_started message a)\<lparr>status_text := status_text a\<rparr> = a
   \<and> (handle_progress message a)\<lparr>status_text := status_text a\<rparr> = a
   \<and> status_text (handle_started message a) = message
   \<and> status_text (handle_progress message a) = message
   \<and> controls b (handle_started message a) = controls b a
   \<and> controls b (handle_progress message a) = controls b a
   \<and> worker (handle_started message a) = worker a
   \<and> worker (handle_progress message a) = worker a
   \<and> output_text (handle_started message a) = output_text a
   \<and> output_text (handle_progress message a) = output_text a
   \<and> ((\<forall>n \<in> set ns. \<not> is_terminal n) \<longrightarrow>
        (foldl (\<lambda>a n. handle n a) a ns)\<lparr>status_text := status_text a\<rparr> = a)"
proof -
  have "(\<forall>n \<in> set ns. \<not> is_terminal n) \<longrightarrow>
        (foldl (\<lambda>a n. handle n a) a ns)\<lparr>status_text := status_text a\<rparr> = a"
  proof (induction ns rule: rev_induct)
    case Nil
    show ?case by simp
  next
    case (snoc n ns)
    show ?case
    proof
      assume nt: "\<forall>n \<in> set (ns @ [n]). \<not> is_terminal n"
      with snoc have prev: "(foldl (\<lambda>a n. handle n a) a ns)\<lparr>status_text := status_text a\<rparr> = a"
        by simp
      from nt have "\<not> is_terminal n" by simp
      then have "(handle n (foldl (\<lambda>a n. handle n a) a ns))\<lparr>status_text := status_text a\<rparr>
          = (foldl (\<lambda>a n. handle n a) a ns)\<lparr>status_text := status_text a\<rparr>"
        by (cases n) (simp_all add: handle_started_def handle_progress_def)
      with prev show "(foldl (\<lambda>a n. handle n a) a (ns @ [n]))\<lparr>status_text := status_text a\<rparr> = a"
        by simp
    qed
  qed
  then show ?thesis
    by (simp add: handle_started_def handle_progress_def controls_def)
qed

theorem C10_nonterminal_frame_witness:
  "\<not> is_terminal (Started ''a'') \<and> \<not> is_terminal (Progress ''b'')
   \<and> (foldl (\<lambda>a n. handle n a) init_ui [Started ''a'', Progress ''b''])
        \<lparr>status_text := status_text init_ui\<rparr> = init_ui
   \<and> status_text (foldl (\<lambda>a n. handle n a) init_ui [Started ''a'', Progress ''b'']) = ''b''"
proof -
  have nt: "\<forall>n \<in> set [Started ''a'', Progress ''b'']. \<not> is_terminal n" by simp
  have st: "status_text (foldl (\<lambda>a n. handle n a) init_ui [Started ''a'', Progress ''b'']) = ''b''"
    by (simp add: handle_started_def handle_progress_def)
  from C10_nonterminal_frame[where a = init_ui and ns = "[Started ''a'', Progress ''b'']"] nt
  have "(foldl (\<lambda>a n. handle n a) init_ui [Started ''a'', Progress ''b''])
        \<lparr>status_text := status_text init_ui\<rparr> = init_ui"
    by blast
  with st show ?thesis by simp
qed

end
